theory Spec2Isabelle
  imports Complex_Main
begin

section \<open>The PDF to Markdown converter of \<^verbatim>\<open>app.py\<close>\<close>

text \<open>
  The program reads PDF files, extracts the text of every page, runs OCR on the embedded
  images and renders one Markdown text per file; a batch loop packs the texts into a zip
  archive. Everything it computes goes through external libraries (PyMuPDF, PIL,
  EasyOCR, the file system). The model makes each library call a value that either
  returns or raises, and follows the \<^verbatim>\<open>try\<close>/\<^verbatim>\<open>except\<close> structure of the source branch
  by branch. The three lists \<^verbatim>\<open>markdown\<close>, \<^verbatim>\<open>errors\<close> and \<^verbatim>\<open>warnings\<close> that
  \<^verbatim>\<open>process_pdf\<close> mutates are fields of a state record, passed along explicitly;
  the observable effects (progress notifications, page loads, temporary files, recognizer
  calls) are appended to an event trace in the same record.

  Not modelled: logging, the spinner, the status text and the creation and clearing of the
  Streamlit widgets (they are assumed not to raise), and \<^verbatim>\<open>doc.close()\<close>. Text is a byte
  string, so \<^verbatim>\<open>encode('utf-8')\<close> is the identity.
\<close>

subsection \<open>Results of external calls\<close>

datatype 'a outcome = Raises string | Returns 'a

type_synonym bytes = string

text \<open>
  \<^verbatim>\<open>tempfile.NamedTemporaryFile(delete=False, suffix=".png")\<close> followed by
  \<^verbatim>\<open>f.write(image_bytes)\<close>: the creation can fail (no file exists), the write or the
  close at the end of the \<^verbatim>\<open>with\<close> block can fail (the file exists, since
  \<^verbatim>\<open>delete=False\<close>, and \<^verbatim>\<open>temp_path\<close> is never bound), or the
  file is written and its name returned.
\<close>

datatype temp_outcome = CreateFails string | WriteFails string string | Written string

text \<open>
  An embedded image, as the loop body sees it: what \<^verbatim>\<open>doc.extract_image(xref)["image"]\<close>
  gives, what the temporary file does, and whether \<^verbatim>\<open>os.unlink\<close> raises.
\<close>

record image =
  extract_image :: "bytes outcome"
  named_temp_file :: temp_outcome
  unlink_raises :: bool

text \<open>
  A loaded page. \<^verbatim>\<open>rect_too_large\<close> is the result of the floating-point comparison
  \<^verbatim>\<open>page.rect.width * page.rect.height > MAX_PAGE_PIXELS\<close>.
\<close>

record page =
  rect_too_large :: bool
  get_text :: "string outcome"
  get_images :: "image list outcome"

text \<open>An opened document: element \<open>i\<close> is the result of \<^verbatim>\<open>doc.load_page(i)\<close>.\<close>

type_synonym document = "page outcome list"

text \<open>
  The process-wide collaborators: the EasyOCR \<^verbatim>\<open>reader\<close> (\<open>None\<close> when its
  initialisation failed; otherwise \<^verbatim>\<open>readtext\<close> on the content of the temporary file),
  the format PIL reports for a byte buffer (\<open>None\<close> when \<^verbatim>\<open>Image.open\<close> raises),
  \<^verbatim>\<open>fitz.open\<close>, and \<^verbatim>\<open>os.path.splitext\<close>.
\<close>

record env =
  reader :: "(bytes \<Rightarrow> string list outcome) option"
  image_open :: "bytes \<Rightarrow> string option"
  fitz_open :: "bytes \<Rightarrow> document outcome"
  splitext :: "string \<Rightarrow> string \<times> string"

datatype event =
    Progress rat
  | LoadPage nat
  | TempCreated string
  | ReadText string
  | Unlink string bool

record pstate =
  markdown :: "string list"
  errors :: "string list"
  warnings :: "string list"
  trace :: "event list"

definition init_state :: pstate where
  "init_state = \<lparr>markdown = [], errors = [], warnings = [], trace = []\<rparr>"

definition add_markdown :: "string \<Rightarrow> pstate \<Rightarrow> pstate" where
  "add_markdown s st = st\<lparr>markdown := markdown st @ [s]\<rparr>"

definition add_error :: "string \<Rightarrow> pstate \<Rightarrow> pstate" where
  "add_error s st = st\<lparr>errors := errors st @ [s]\<rparr>"

definition add_warning :: "string \<Rightarrow> pstate \<Rightarrow> pstate" where
  "add_warning s st = st\<lparr>warnings := warnings st @ [s]\<rparr>"

definition emit :: "event \<Rightarrow> pstate \<Rightarrow> pstate" where
  "emit ev st = st\<lparr>trace := trace st @ [ev]\<rparr>"

subsection \<open>Constants and string formatting\<close>

definition MAX_PDF_SIZE_MB :: nat where
  "MAX_PDF_SIZE_MB = 50"

definition MAX_IMAGE_SIZE_MB :: nat where
  "MAX_IMAGE_SIZE_MB = 10"

definition digit :: "nat \<Rightarrow> char" where
  "digit d = char_of (48 + d)"

text \<open>The decimal rendering of a natural number, as an f-string gives it.\<close>

function str_nat :: "nat \<Rightarrow> string" where
  "str_nat n = (if n < 10 then [digit n] else str_nat (n div 10) @ [digit (n mod 10)])"
  by pat_completeness auto
termination
  by (relation "measure id") auto

declare str_nat.simps [simp del]

text \<open>
  \<^verbatim>\<open>f"{x:.1f}"\<close> for a non-negative \<open>x\<close>: one decimal, the exact value rounded half to
  even.
\<close>

definition round_half_even :: "rat \<Rightarrow> nat" where
  "round_half_even q =
     (let f = nat \<lfloor>q\<rfloor>; r = q - of_nat f
      in if r < 1 / 2 then f else if 1 / 2 < r then f + 1 else if even f then f else f + 1)"

definition fmt_1f :: "rat \<Rightarrow> string" where
  "fmt_1f q = (let t = round_half_even (q * 10) in str_nat (t div 10) @ ''.'' @ str_nat (t mod 10))"

text \<open>The two emoji of the messages, as their UTF-8 bytes.\<close>

definition cross_mark :: string where
  "cross_mark = [CHR 0xE2, CHR 0x9D, CHR 0x8C]"

definition warning_sign :: string where
  "warning_sign = [CHR 0xE2, CHR 0x9A, CHR 0xA0, CHR 0xEF, CHR 0xB8, CHR 0x8F]"

fun join :: "string \<Rightarrow> string list \<Rightarrow> string" where
  "join sep [] = []"
| "join sep [x] = x"
| "join sep (x # y # ys) = x @ sep @ join sep (y # ys)"

definition page_section :: "nat \<Rightarrow> string \<Rightarrow> string" where
  "page_section page_num text = ''## Page '' @ str_nat (page_num + 1) @ ''\<newline>\<newline>'' @ text"

definition images_heading :: "nat \<Rightarrow> string" where
  "images_heading page_num = ''### Images on Page '' @ str_nat (page_num + 1)"

definition image_ocr_entry :: "nat \<Rightarrow> string list \<Rightarrow> string" where
  "image_ocr_entry img_idx ocr_results =
     ''**Image '' @ str_nat (img_idx + 1) @ '' OCR:**\<newline>'' @ join '' '' ocr_results @ ''\<newline>''"

definition page_too_large_msg :: "nat \<Rightarrow> string" where
  "page_too_large_msg page_num =
     warning_sign @ '' Page '' @ str_nat (page_num + 1) @ '' too large, might affect processing quality''"

definition text_failed_msg :: "nat \<Rightarrow> string \<Rightarrow> string" where
  "text_failed_msg page_num msg =
     cross_mark @ '' Failed to extract text from page '' @ str_nat (page_num + 1) @ '': '' @ msg"

definition skipped_image_msg :: "nat \<Rightarrow> nat \<Rightarrow> string" where
  "skipped_image_msg img_idx page_num =
     warning_sign @ '' Skipped image '' @ str_nat (img_idx + 1) @ '' on page '' @ str_nat (page_num + 1)
       @ '': Invalid format or corrupted''"

definition no_text_msg :: "nat \<Rightarrow> nat \<Rightarrow> string" where
  "no_text_msg img_idx page_num =
     warning_sign @ '' No text found in image '' @ str_nat (img_idx + 1) @ '' on page '' @ str_nat (page_num + 1)"

definition ocr_error_msg :: "nat \<Rightarrow> nat \<Rightarrow> string \<Rightarrow> string" where
  "ocr_error_msg img_idx page_num msg =
     cross_mark @ '' OCR Error for image '' @ str_nat (img_idx + 1) @ '' on page '' @ str_nat (page_num + 1)
       @ '': '' @ msg"

definition image_failed_msg :: "nat \<Rightarrow> nat \<Rightarrow> string \<Rightarrow> string" where
  "image_failed_msg img_idx page_num msg =
     cross_mark @ '' Failed to process image '' @ str_nat (img_idx + 1) @ '' on page '' @ str_nat (page_num + 1)
       @ '': '' @ msg"

definition page_failed_msg :: "nat \<Rightarrow> string \<Rightarrow> string" where
  "page_failed_msg page_num msg =
     cross_mark @ '' Failed to process page '' @ str_nat (page_num + 1) @ '': '' @ msg"

subsection \<open>Validation\<close>

definition validate_pdf_size :: "bytes \<Rightarrow> unit outcome" where
  "validate_pdf_size pdf_bytes =
     (let size_mb = (of_nat (length pdf_bytes) / (1024 * 1024) :: rat)
      in if of_nat MAX_PDF_SIZE_MB < size_mb
         then Raises (''PDF file too large (max '' @ str_nat MAX_PDF_SIZE_MB @ ''MB allowed, got ''
                        @ fmt_1f size_mb @ ''MB)'')
         else Returns ())"

definition validate_image :: "env \<Rightarrow> bytes \<Rightarrow> bool outcome" where
  "validate_image e image_bytes =
     (if MAX_IMAGE_SIZE_MB * 1024 * 1024 < length image_bytes
      then Raises (''Image too large (max '' @ str_nat MAX_IMAGE_SIZE_MB @ ''MB allowed)'')
      else (case image_open e image_bytes of
              None \<Rightarrow> Returns False
            | Some fmt \<Rightarrow> Returns (fmt \<in> set [''PNG'', ''JPEG'', ''TIFF''])))"

subsection \<open>One image of a page\<close>

text \<open>
  The inner \<^verbatim>\<open>try\<close> of the image loop (the recognizer call), entered once
  \<^verbatim>\<open>temp_path\<close> is bound. Its \<^verbatim>\<open>finally\<close> clause is the last step of
  \<open>process_image\<close>.
\<close>

definition run_ocr :: "env \<Rightarrow> nat \<Rightarrow> nat \<Rightarrow> bytes \<Rightarrow> string \<Rightarrow> pstate \<Rightarrow> pstate" where
  "run_ocr e page_num img_idx image_bytes temp_path st =
     (case reader e of
        None \<Rightarrow> add_error (ocr_error_msg img_idx page_num ''OCR engine not initialized'') st
      | Some readtext \<Rightarrow>
          (case readtext image_bytes of
             Raises msg \<Rightarrow> add_error (ocr_error_msg img_idx page_num msg) (emit (ReadText temp_path) st)
           | Returns ocr_results \<Rightarrow>
               (if ocr_results \<noteq> []
                then add_markdown (image_ocr_entry img_idx ocr_results) (emit (ReadText temp_path) st)
                else add_warning (no_text_msg img_idx page_num) (emit (ReadText temp_path) st))))"

definition process_image :: "env \<Rightarrow> nat \<Rightarrow> nat \<Rightarrow> image \<Rightarrow> pstate \<Rightarrow> pstate" where
  "process_image e page_num img_idx img st =
     (case extract_image img of
        Raises msg \<Rightarrow> add_error (image_failed_msg img_idx page_num msg) st
      | Returns image_bytes \<Rightarrow>
          (case validate_image e image_bytes of
             Raises msg \<Rightarrow> add_error (image_failed_msg img_idx page_num msg) st
           | Returns valid \<Rightarrow>
               (if \<not> valid then add_warning (skipped_image_msg img_idx page_num) st
                else (case named_temp_file img of
                        CreateFails msg \<Rightarrow> add_error (image_failed_msg img_idx page_num msg) st
                      | WriteFails path msg \<Rightarrow>
                          add_error (image_failed_msg img_idx page_num msg) (emit (TempCreated path) st)
                      | Written temp_path \<Rightarrow>
                          emit (Unlink temp_path (\<not> unlink_raises img))
                            (run_ocr e page_num img_idx image_bytes temp_path
                               (emit (TempCreated temp_path) st))))))"

text \<open>\<^verbatim>\<open>for img_idx, img in enumerate(img_list)\<close>, from index \<open>img_idx\<close> on.\<close>

fun image_loop :: "env \<Rightarrow> nat \<Rightarrow> nat \<Rightarrow> image list \<Rightarrow> pstate \<Rightarrow> pstate" where
  "image_loop e page_num img_idx [] st = st"
| "image_loop e page_num img_idx (img # imgs) st =
     image_loop e page_num (Suc img_idx) imgs (process_image e page_num img_idx img st)"

subsection \<open>Pages and documents\<close>

text \<open>One iteration of \<^verbatim>\<open>for page_num in range(total_pages)\<close>.\<close>

definition process_page :: "env \<Rightarrow> nat \<Rightarrow> nat \<Rightarrow> page outcome \<Rightarrow> pstate \<Rightarrow> pstate" where
  "process_page e total_pages page_num loaded st =
     (let st0 = emit (LoadPage page_num)
                  (emit (Progress (of_nat (page_num + 1) / of_nat total_pages)) st)
      in case loaded of
           Raises msg \<Rightarrow> add_error (page_failed_msg page_num msg) st0
         | Returns pg \<Rightarrow>
             (let st1 = (if rect_too_large pg then add_warning (page_too_large_msg page_num) st0 else st0)
              in case get_text pg of
                   Raises msg \<Rightarrow> add_error (text_failed_msg page_num msg) st1
                 | Returns text \<Rightarrow>
                     (let st2 = add_markdown (page_section page_num text) st1
                      in case get_images pg of
                           Raises msg \<Rightarrow> add_error (page_failed_msg page_num msg) st2
                         | Returns img_list \<Rightarrow>
                             image_loop e page_num 0 img_list
                               (if img_list \<noteq> [] then add_markdown (images_heading page_num) st2
                                else st2))))"

fun page_loop :: "env \<Rightarrow> nat \<Rightarrow> nat \<Rightarrow> document \<Rightarrow> pstate \<Rightarrow> pstate" where
  "page_loop e total_pages page_num [] st = st"
| "page_loop e total_pages page_num (p # ps) st =
     page_loop e total_pages (Suc page_num) ps (process_page e total_pages page_num p st)"

definition add_summary :: "pstate \<Rightarrow> pstate" where
  "add_summary st =
     (if errors st \<noteq> [] \<or> warnings st \<noteq> []
      then st\<lparr>markdown :=
                markdown st @ [''\<newline>## Processing Summary'']
                  @ (if errors st \<noteq> [] then ''\<newline>### Errors'' # errors st else [])
                  @ (if warnings st \<noteq> [] then ''\<newline>### Warnings'' # warnings st else [])\<rparr>
      else st)"

text \<open>
  \<^verbatim>\<open>process_pdf\<close> up to the final \<^verbatim>\<open>join\<close>: the state when the function returns,
  or the \<^verbatim>\<open>ValueError\<close> it raises.
\<close>

definition process_pdf_state :: "env \<Rightarrow> bytes \<Rightarrow> pstate outcome" where
  "process_pdf_state e pdf_bytes =
     (case validate_pdf_size pdf_bytes of
        Raises msg \<Rightarrow> Raises (''Failed to open PDF: '' @ msg)
      | Returns _ \<Rightarrow>
          (case fitz_open e pdf_bytes of
             Raises msg \<Rightarrow> Raises (''Failed to open PDF: '' @ msg)
           | Returns doc \<Rightarrow> Returns (add_summary (page_loop e (length doc) 0 doc init_state))))"

definition process_pdf :: "env \<Rightarrow> bytes \<Rightarrow> string outcome" where
  "process_pdf e pdf_bytes =
     (case process_pdf_state e pdf_bytes of
        Raises msg \<Rightarrow> Raises msg
      | Returns st \<Rightarrow> Returns (join ''\<newline>\<newline>'' (markdown st)))"

subsection \<open>The batch loop\<close>

record upload =
  name :: string
  getvalue :: bytes

text \<open>
  What the batch leaves behind: the entries written to the zip archive, in order, and the
  messages shown with \<^verbatim>\<open>st.error\<close>.
\<close>

record batch =
  zipf :: "(string \<times> string) list"
  st_error :: "string list"

definition process_upload :: "env \<Rightarrow> upload \<Rightarrow> batch \<Rightarrow> batch" where
  "process_upload e uploaded_file b =
     (case process_pdf e (getvalue uploaded_file) of
        Raises msg \<Rightarrow>
          b\<lparr>st_error := st_error b @ [''Error processing '' @ name uploaded_file @ '': '' @ msg]\<rparr>
      | Returns md_content \<Rightarrow>
          (if md_content \<noteq> []
           then b\<lparr>zipf := zipf b @ [(fst (splitext e (name uploaded_file)) @ ''.md'', md_content)]\<rparr>
           else b))"

fun upload_loop :: "env \<Rightarrow> upload list \<Rightarrow> batch \<Rightarrow> batch" where
  "upload_loop e [] b = b"
| "upload_loop e (u # us) b = upload_loop e us (process_upload e u b)"

definition process_files :: "env \<Rightarrow> bool \<Rightarrow> upload list \<Rightarrow> batch" where
  "process_files e button uploaded_files =
     (if button \<and> uploaded_files \<noteq> []
      then upload_loop e uploaded_files \<lparr>zipf = [], st_error = []\<rparr>
      else \<lparr>zipf = [], st_error = []\<rparr>)"

section \<open>Notions used to state the properties\<close>

text \<open>
  Every operation of the state only appends to its four lists; \<open>st_append s d\<close> is the
  state \<open>s\<close> followed by what a later step added.
\<close>

definition st_append :: "pstate \<Rightarrow> pstate \<Rightarrow> pstate" where
  "st_append s d = \<lparr>markdown = markdown s @ markdown d, errors = errors s @ errors d,
     warnings = warnings s @ warnings d, trace = trace s @ trace d\<rparr>"

text \<open>What ends up in the rendered text: the sections and the two diagnostic lists.\<close>

definition diag :: "pstate \<Rightarrow> string list \<times> string list \<times> string list" where
  "diag st = (markdown st, errors st, warnings st)"

text \<open>The fractions passed to \<^verbatim>\<open>progress_bar.progress\<close>, in order.\<close>

fun fractions :: "event list \<Rightarrow> rat list" where
  "fractions [] = []"
| "fractions (Progress q # evs) = q # fractions evs"
| "fractions (ev # evs) = fractions evs"

text \<open>
  The temporary files that exist after a sequence of events, starting from the files
  \<open>fs\<close>: a created file exists until an \<^verbatim>\<open>os.unlink\<close> of its path succeeds.
\<close>

fun fs_step :: "event \<Rightarrow> string set \<Rightarrow> string set" where
  "fs_step (TempCreated path) fs = insert path fs"
| "fs_step (Unlink path ok) fs = (if ok then fs - {path} else fs)"
| "fs_step ev fs = fs"

definition files_after :: "string set \<Rightarrow> event list \<Rightarrow> string set" where
  "files_after fs evs = fold fs_step evs fs"

subsection \<open>Failures that reach a handler\<close>

text \<open>
  The exceptions of one image that reach a handler of the loop body (the
  \<^verbatim>\<open>except\<close> clauses at lines 119 and 126): raised by the extraction of its bytes, by the
  gate, by the creation or writing of the temporary file, or by the recognition (the
  missing reader included). A failing \<^verbatim>\<open>os.unlink\<close> is not among them: it is caught
  inside the \<^verbatim>\<open>finally\<close> clause and never reaches a handler, so \<open>unlink_raises\<close>
  does not occur here. An image whose gate returns \<open>False\<close> is skipped, which raises
  nothing.
\<close>

definition raises_to_handler :: "env \<Rightarrow> image \<Rightarrow> bool" where
  "raises_to_handler e img =
     (case extract_image img of
        Raises msg \<Rightarrow> True
      | Returns image_bytes \<Rightarrow>
          (case validate_image e image_bytes of
             Raises msg \<Rightarrow> True
           | Returns valid \<Rightarrow>
               valid \<and>
               (case named_temp_file img of
                  CreateFails msg \<Rightarrow> True
                | WriteFails path msg \<Rightarrow> True
                | Written temp_path \<Rightarrow>
                    (case reader e of
                       None \<Rightarrow> True
                     | Some readtext \<Rightarrow>
                         (case readtext image_bytes of Raises msg \<Rightarrow> True | Returns ocr_results \<Rightarrow> False)))))"

subsection \<open>Concrete collaborators\<close>

definition sniff :: "bytes \<Rightarrow> string option" where
  "sniff b = (if take 3 b = ''PNG'' then Some ''PNG''
              else if take 3 b = ''GIF'' then Some ''GIF'' else None)"

definition example_env :: "(bytes \<Rightarrow> string list outcome) option \<Rightarrow> document outcome \<Rightarrow> env" where
  "example_env r d =
     \<lparr>reader = r, image_open = sniff, fitz_open = (\<lambda>b. d),
      splitext = (\<lambda>s. (takeWhile (\<lambda>c. c \<noteq> CHR ''.'') s, dropWhile (\<lambda>c. c \<noteq> CHR ''.'') s))\<rparr>"

definition world_reader :: "(bytes \<Rightarrow> string list outcome) option" where
  "world_reader = Some (\<lambda>b. Returns [''WORLD''])"

definition png_image :: image where
  "png_image = \<lparr>extract_image = Returns ''PNG-data'', named_temp_file = Written ''/tmp/tmpa1.png'',
                 unlink_raises = False\<rparr>"

definition gif_image :: image where
  "gif_image = \<lparr>extract_image = Returns ''GIF89a'', named_temp_file = Written ''/tmp/tmpb2.png'',
                 unlink_raises = False\<rparr>"

definition huge_image :: image where
  "huge_image = \<lparr>extract_image = Returns (replicate (10 * 1024 * 1024 + 1) CHR ''P''),
                  named_temp_file = Written ''/tmp/tmpc3.png'', unlink_raises = False\<rparr>"

definition stuck_image :: image where
  "stuck_image = \<lparr>extract_image = Returns ''PNG-data'', named_temp_file = Written ''/tmp/tmpd4.png'',
                   unlink_raises = True\<rparr>"

definition hello_page :: page where
  "hello_page = \<lparr>rect_too_large = False, get_text = Returns ''Hello'', get_images = Returns [png_image]\<rparr>"

definition broken_page :: page where
  "broken_page = \<lparr>rect_too_large = False, get_text = Raises ''boom'', get_images = Returns []\<rparr>"

definition gif_page :: page where
  "gif_page = \<lparr>rect_too_large = False, get_text = Returns ''Hello'', get_images = Returns [gif_image]\<rparr>"

section \<open>Basic facts\<close>

lemmas st_ops = add_markdown_def add_error_def add_warning_def emit_def

lemma st_append_init [simp]: "st_append s init_state = s" "st_append init_state s = s"
  by (simp_all add: st_append_def init_state_def)

lemma st_append_assoc: "st_append (st_append a b) c = st_append a (st_append b c)"
  by (simp add: st_append_def)

lemma st_append_sel [simp]:
  "markdown (st_append s d) = markdown s @ markdown d"
  "errors (st_append s d) = errors s @ errors d"
  "warnings (st_append s d) = warnings s @ warnings d"
  "trace (st_append s d) = trace s @ trace d"
  by (simp_all add: st_append_def)

lemma ops_shift:
  "add_markdown x (st_append a b) = st_append a (add_markdown x b)"
  "add_error x (st_append a b) = st_append a (add_error x b)"
  "add_warning x (st_append a b) = st_append a (add_warning x b)"
  "emit ev (st_append a b) = st_append a (emit ev b)"
  by (simp_all add: st_ops st_append_def)

lemma run_ocr_shift:
  "run_ocr e pn i b p (st_append a s) = st_append a (run_ocr e pn i b p s)"
  by (simp add: run_ocr_def ops_shift split: option.splits outcome.splits)

lemma process_image_shift:
  "process_image e pn i img (st_append a s) = st_append a (process_image e pn i img s)"
  by (simp add: process_image_def ops_shift run_ocr_shift split: outcome.splits temp_outcome.splits)

lemma image_loop_shift:
  "image_loop e pn i imgs (st_append a s) = st_append a (image_loop e pn i imgs s)"
  by (induction imgs arbitrary: i s) (simp_all add: process_image_shift)

lemma process_page_shift:
  "process_page e t n p (st_append a s) = st_append a (process_page e t n p s)"
  by (simp add: process_page_def Let_def ops_shift image_loop_shift split: outcome.splits)

lemma page_loop_shift:
  "page_loop e t n ps (st_append a s) = st_append a (page_loop e t n ps s)"
  by (induction ps arbitrary: n s) (simp_all add: process_page_shift)

lemma process_image_append:
  "process_image e pn i img st = st_append st (process_image e pn i img init_state)"
  using process_image_shift [of e pn i img st init_state] by simp

lemma image_loop_append:
  "image_loop e pn i imgs st = st_append st (image_loop e pn i imgs init_state)"
  using image_loop_shift [of e pn i imgs st init_state] by simp

lemma process_page_append:
  "process_page e t n p st = st_append st (process_page e t n p init_state)"
  using process_page_shift [of e t n p st init_state] by simp

lemma page_loop_append:
  "page_loop e t n ps st = st_append st (page_loop e t n ps init_state)"
  using page_loop_shift [of e t n ps st init_state] by simp

lemma image_loop_app:
  "image_loop e pn i (xs @ ys) st = image_loop e pn (i + length xs) ys (image_loop e pn i xs st)"
  by (induction xs arbitrary: i st) auto

lemma page_loop_app:
  "page_loop e t n (xs @ ys) st = page_loop e t (n + length xs) ys (page_loop e t n xs st)"
  by (induction xs arbitrary: n st) auto

lemma validate_pdf_size_ok:
  "validate_pdf_size b = Returns () \<longleftrightarrow> length b \<le> 50 * 1024 * 1024"
proof -
  have "(50 :: rat) < rat_of_nat (length b) / (1024 * 1024)
          \<longleftrightarrow> (50 * 1024 * 1024 :: rat) < rat_of_nat (length b)"
    by (simp add: field_simps)
  also have "\<dots> \<longleftrightarrow> rat_of_nat (50 * 1024 * 1024) < rat_of_nat (length b)"
    by simp
  also have "\<dots> \<longleftrightarrow> 50 * 1024 * 1024 < length b"
    by (simp only: of_nat_less_iff)
  finally show ?thesis
    by (auto simp add: validate_pdf_size_def MAX_PDF_SIZE_MB_def Let_def)
qed

lemma process_pdf_state_opened:
  "length b \<le> 50 * 1024 * 1024 \<Longrightarrow> fitz_open e b = Returns doc \<Longrightarrow>
   process_pdf_state e b = Returns (add_summary (page_loop e (length doc) 0 doc init_state))"
  using validate_pdf_size_ok [of b] by (simp add: process_pdf_state_def)

lemma run_ocr_unlink_free:
  "diag (emit ev (run_ocr e pn i b p (emit ev' init_state))) = diag (run_ocr e pn i b p init_state)"
  by (simp add: run_ocr_def diag_def st_ops init_state_def split: option.splits outcome.splits)

lemma process_image_unlink_diag0:
  "diag (process_image e pn i (img\<lparr>unlink_raises := r\<rparr>) init_state)
     = diag (process_image e pn i img init_state)"
  by (simp add: process_image_def run_ocr_def diag_def st_ops init_state_def
      split: outcome.splits temp_outcome.splits option.splits)

lemma diag_eq_append:
  "diag s = diag s' \<Longrightarrow> diag d = diag d' \<Longrightarrow> diag (st_append s d) = diag (st_append s' d')"
  by (simp add: diag_def)

lemma process_image_unlink_diag:
  "diag s = diag s' \<Longrightarrow>
   diag (process_image e pn i (img\<lparr>unlink_raises := r\<rparr>) s) = diag (process_image e pn i img s')"
  apply (subst process_image_append)
  apply (subst (2) process_image_append)
  apply (rule diag_eq_append)
   apply assumption
  apply (rule process_image_unlink_diag0)
  done

lemma image_loop_unlink_diag:
  "diag s = diag s' \<Longrightarrow>
   diag (image_loop e pn i (map (\<lambda>img. img\<lparr>unlink_raises := f img\<rparr>) imgs) s)
     = diag (image_loop e pn i imgs s')"
proof (induction imgs arbitrary: i s s')
  case Nil
  then show ?case by simp
next
  case (Cons img imgs)
  have "diag (process_image e pn i (img\<lparr>unlink_raises := f img\<rparr>) s)
          = diag (process_image e pn i img s')"
    by (rule process_image_unlink_diag [OF Cons.prems])
  from Cons.IH [OF this] show ?case by simp
qed

subsection \<open>Numbers and messages\<close>

lemma str_nat_1: "str_nat (Suc 0) = ''1''" "str_nat 1 = ''1''" "str_nat 2 = ''2''" "str_nat 10 = ''10''"
  by code_simp+

lemma str_nat_2: "str_nat (Suc (Suc 0)) = ''2''"
  by code_simp

lemma str_nat_3: "str_nat (Suc (Suc (Suc 0))) = ''3''" "str_nat 3 = ''3''"
  by code_simp+

lemma digit_inj: "a < 10 \<Longrightarrow> b < 10 \<Longrightarrow> digit a = digit b \<Longrightarrow> a = b"
proof -
  assume a: "a < 10" and b: "b < 10" and eq: "digit a = digit b"
  from eq have "(of_char (char_of (48 + a)) :: nat) = of_char (char_of (48 + b))"
    by (simp add: digit_def)
  then have "(48 + a) mod 256 = (48 + b) mod 256"
    by simp
  with a b show "a = b" by simp
qed

lemma str_nat_nonempty: "str_nat n \<noteq> []"
  by (subst str_nat.simps) simp

lemma str_nat_inj: "str_nat m = str_nat n \<Longrightarrow> m = n"
proof (induction m arbitrary: n rule: str_nat.induct)
  case (1 m)
  show ?case
  proof (cases "m < 10")
    case True
    with "1.prems" have one: "str_nat n = [digit m]"
      by (simp add: str_nat.simps [of m])
    have "n < 10"
    proof (rule ccontr)
      assume "\<not> n < 10"
      then have "str_nat n = str_nat (n div 10) @ [digit (n mod 10)]"
        by (simp add: str_nat.simps [of n])
      with one str_nat_nonempty [of "n div 10"] show False by simp
    qed
    with one have "digit n = digit m" by (simp add: str_nat.simps [of n])
    with True \<open>n < 10\<close> show ?thesis by (metis digit_inj)
  next
    case False
    then have m: "str_nat m = str_nat (m div 10) @ [digit (m mod 10)]"
      by (simp add: str_nat.simps [of m])
    have n10: "\<not> n < 10"
    proof
      assume "n < 10"
      then have "str_nat n = [digit n]" by (simp add: str_nat.simps [of n])
      with m "1.prems" str_nat_nonempty [of "m div 10"] show False by simp
    qed
    then have n: "str_nat n = str_nat (n div 10) @ [digit (n mod 10)]"
      by (simp add: str_nat.simps [of n])
    from m n "1.prems" have a: "str_nat (m div 10) = str_nat (n div 10)"
      and b: "digit (m mod 10) = digit (n mod 10)" by simp_all
    from "1.IH" [OF False a] have "m div 10 = n div 10" .
    moreover from b have "m mod 10 = n mod 10" by (intro digit_inj) simp_all
    ultimately show ?thesis by (metis div_mult_mod_eq)
  qed
qed

lemma images_heading_inj: "images_heading m = images_heading n \<longleftrightarrow> m = n"
  using str_nat_inj [of "m + 1" "n + 1"] by (auto simp add: images_heading_def)

lemma validate_image_cases:
  "validate_image e b =
     (if 10 * 1024 * 1024 < length b then Raises ''Image too large (max 10MB allowed)''
      else Returns (image_open e b \<in> {Some ''PNG'', Some ''JPEG'', Some ''TIFF''}))"
  by (auto simp add: validate_image_def MAX_IMAGE_SIZE_MB_def str_nat_1 split: option.splits)

lemmas msg_defs = page_section_def images_heading_def image_ocr_entry_def page_too_large_msg_def
  text_failed_msg_def skipped_image_msg_def no_text_msg_def ocr_error_msg_def image_failed_msg_def
  page_failed_msg_def

lemmas run_defs = process_page_def process_image_def run_ocr_def validate_image_cases Let_def st_ops
  init_state_def add_summary_def example_env_def world_reader_def sniff_def

subsection \<open>What one image and one page append\<close>

lemma process_image_init_cases:
  "(\<exists>r evs. process_image e pn i img init_state
        = \<lparr>markdown = [], errors = [image_failed_msg i pn r], warnings = [], trace = evs\<rparr>)
   \<or> (\<exists>r evs. process_image e pn i img init_state
        = \<lparr>markdown = [], errors = [ocr_error_msg i pn r], warnings = [], trace = evs\<rparr>)
   \<or> (\<exists>evs. process_image e pn i img init_state
        = \<lparr>markdown = [], errors = [], warnings = [skipped_image_msg i pn], trace = evs\<rparr>)
   \<or> (\<exists>evs. process_image e pn i img init_state
        = \<lparr>markdown = [], errors = [], warnings = [no_text_msg i pn], trace = evs\<rparr>)
   \<or> (\<exists>r evs. r \<noteq> [] \<and> process_image e pn i img init_state
        = \<lparr>markdown = [image_ocr_entry i r], errors = [], warnings = [], trace = evs\<rparr>)"
  by (auto simp add: process_image_def run_ocr_def st_ops init_state_def
      split: outcome.splits temp_outcome.splits option.splits)

lemma image_loop_Cons_init:
  "image_loop e pn i (img # imgs) init_state
     = st_append (process_image e pn i img init_state) (image_loop e pn (Suc i) imgs init_state)"
  by (simp add: image_loop_append [of e pn "Suc i" imgs "process_image e pn i img init_state"])

lemma page_loop_Cons_init:
  "page_loop e t n (p # ps) init_state
     = st_append (process_page e t n p init_state) (page_loop e t (Suc n) ps init_state)"
  by (simp add: page_loop_append [of e t "Suc n" ps "process_page e t n p init_state"])

lemma process_page_init:
  "process_page e t n p init_state =
     (case p of
        Raises msg \<Rightarrow>
          \<lparr>markdown = [], errors = [page_failed_msg n msg], warnings = [],
           trace = [Progress (of_nat (n + 1) / of_nat t), LoadPage n]\<rparr>
      | Returns pg \<Rightarrow>
          (case get_text pg of
             Raises msg \<Rightarrow>
               \<lparr>markdown = [], errors = [text_failed_msg n msg],
                warnings = (if rect_too_large pg then [page_too_large_msg n] else []),
                trace = [Progress (of_nat (n + 1) / of_nat t), LoadPage n]\<rparr>
           | Returns text \<Rightarrow>
               (case get_images pg of
                  Raises msg \<Rightarrow>
                    \<lparr>markdown = [page_section n text], errors = [page_failed_msg n msg],
                     warnings = (if rect_too_large pg then [page_too_large_msg n] else []),
                     trace = [Progress (of_nat (n + 1) / of_nat t), LoadPage n]\<rparr>
                | Returns imgs \<Rightarrow>
                    st_append
                      \<lparr>markdown = page_section n text # (if imgs \<noteq> [] then [images_heading n] else []),
                       errors = [],
                       warnings = (if rect_too_large pg then [page_too_large_msg n] else []),
                       trace = [Progress (of_nat (n + 1) / of_nat t), LoadPage n]\<rparr>
                      (image_loop e n 0 imgs init_state))))"
proof (cases p)
  case (Raises msg)
  then show ?thesis
    by (simp add: process_page_def Let_def st_ops init_state_def)
next
  case (Returns pg)
  note p = this
  show ?thesis
  proof (cases "get_text pg")
    case (Raises msg)
    with p show ?thesis
      by (simp add: process_page_def Let_def st_ops init_state_def)
  next
    case (Returns body)
    note body = this
    show ?thesis
    proof (cases "get_images pg")
      case (Raises msg)
      with p body show ?thesis
        by (simp add: process_page_def Let_def st_ops init_state_def)
    next
      case (Returns imgs)
      define s where "s = \<lparr>markdown = page_section n body # (if imgs \<noteq> [] then [images_heading n] else []),
                       errors = [],
                       warnings = (if rect_too_large pg then [page_too_large_msg n] else []),
                       trace = [Progress (of_nat (n + 1) / of_nat t), LoadPage n]\<rparr>"
      from p body Returns have "process_page e t n p init_state = image_loop e n 0 imgs s"
        by (simp add: process_page_def Let_def st_ops init_state_def s_def)
      also have "\<dots> = st_append s (image_loop e n 0 imgs init_state)"
        by (rule image_loop_append)
      finally show ?thesis
        using p body Returns by (simp add: s_def)
    qed
  qed
qed

lemma fractions_append: "fractions (xs @ ys) = fractions xs @ fractions ys"
  by (induction xs rule: fractions.induct) simp_all

lemma fractions_process_image: "fractions (trace (process_image e pn i img init_state)) = []"
  by (simp add: process_image_def run_ocr_def st_ops init_state_def
      split: outcome.splits temp_outcome.splits option.splits)

lemma fractions_image_loop: "fractions (trace (image_loop e pn i imgs init_state)) = []"
proof (induction imgs arbitrary: i)
  case Nil
  show ?case by (simp add: init_state_def)
next
  case (Cons img imgs)
  show ?case
    by (simp only: image_loop_Cons_init st_append_sel fractions_append fractions_process_image
          Cons.IH append_Nil)
qed

lemma fractions_process_page:
  "fractions (trace (process_page e t n p init_state)) = [of_nat (n + 1) / of_nat t]"
  by (simp add: process_page_init fractions_append fractions_image_loop split: outcome.splits)

lemma fractions_page_loop:
  "fractions (trace (page_loop e t n ps init_state)) = map (\<lambda>k. of_nat (k + 1) / of_nat t) [n..<n + length ps]"
proof (induction ps arbitrary: n)
  case Nil
  show ?case by (simp add: init_state_def)
next
  case (Cons p ps)
  have "[n..<n + length (p # ps)] = n # [Suc n..<Suc n + length ps]"
    by (simp add: upt_rec)
  then show ?case
    by (simp only: page_loop_Cons_init st_append_sel fractions_append fractions_process_page
          Cons.IH append_Cons append_Nil list.map)
qed

lemma trace_add_summary: "trace (add_summary st) = trace st"
  by (simp add: add_summary_def)

lemma fractions_increasing:
  "sorted_wrt (<) (map (\<lambda>k. (of_nat (k + 1) :: rat) / of_nat t) [0..<t])"
proof (cases "t = 0")
  case True
  then show ?thesis by simp
next
  case False
  then have "(of_nat (j + 1) :: rat) / of_nat t < of_nat (k + 1) / of_nat t" if "j < k" for j k
    using that by (simp add: divide_strict_right_mono)
  then show ?thesis
    by (simp add: sorted_wrt_map sorted_wrt_mono_rel [OF _ sorted_wrt_upt])
qed

lemma fractions_last:
  "t \<noteq> 0 \<Longrightarrow> last (map (\<lambda>k. (of_nat (k + 1) :: rat) / of_nat t) [0..<t]) = 1"
  by (simp add: last_map last_upt)

lemma process_page_trace_starts:
  "\<exists>evs. trace (process_page e t n p st)
           = trace st @ Progress (of_nat (n + 1) / of_nat t) # LoadPage n # evs"
  by (subst process_page_append) (simp add: process_page_init split: outcome.splits)

subsection \<open>Sections, diagnostics and recognizer calls of a document\<close>

lemma failing_image_delta:
  "raises_to_handler e img \<Longrightarrow>
   \<exists>msg evs. (\<exists>reason. msg = ocr_error_msg i pn reason \<or> msg = image_failed_msg i pn reason)
      \<and> process_image e pn i img init_state
          = \<lparr>markdown = [], errors = [msg], warnings = [], trace = evs\<rparr>"
  by (auto simp add: raises_to_handler_def process_image_def run_ocr_def st_ops init_state_def
      split: outcome.splits temp_outcome.splits option.splits)

lemma quiet_image_no_error:
  "\<not> raises_to_handler e img \<Longrightarrow> errors (process_image e pn i img init_state) = []"
  by (auto simp add: raises_to_handler_def process_image_def run_ocr_def st_ops init_state_def
      split: outcome.splits temp_outcome.splits option.splits)

lemma image_loop_around:
  "image_loop e pn i (before @ img # after) st
     = st_append
         (st_append (st_append st (image_loop e pn i before init_state))
            (process_image e pn (i + length before) img init_state))
         (image_loop e pn (Suc (i + length before)) after init_state)"
proof -
  let ?k = "i + length before"
  let ?s1 = "image_loop e pn i before st"
  have "image_loop e pn i (before @ img # after) st = image_loop e pn ?k (img # after) ?s1"
    by (rule image_loop_app)
  also have "\<dots> = image_loop e pn (Suc ?k) after (process_image e pn ?k img ?s1)"
    by simp
  also have "\<dots> = st_append (process_image e pn ?k img ?s1)
                      (image_loop e pn (Suc ?k) after init_state)"
    by (rule image_loop_append)
  also have "process_image e pn ?k img ?s1
               = st_append ?s1 (process_image e pn ?k img init_state)"
    by (rule process_image_append)
  also have "?s1 = st_append st (image_loop e pn i before init_state)"
    by (rule image_loop_append)
  finally show ?thesis .
qed

lemma heading_not_other:
  "images_heading k \<noteq> image_ocr_entry i r"
  "images_heading k \<noteq> page_section n body"
  "images_heading k \<noteq> ''\<newline>## Processing Summary''"
  "images_heading k \<noteq> ''\<newline>### Errors''"
  "images_heading k \<noteq> ''\<newline>### Warnings''"
  by (simp_all add: msg_defs)

lemma heading_not_marked: "take (Suc 0) s = [CHR 0xE2] \<Longrightarrow> images_heading k \<noteq> s"
  by (auto simp add: images_heading_def)

lemma heading_process_image_init:
  "images_heading k \<notin> set (markdown (process_image e pn i img init_state))"
  using process_image_init_cases [of e pn i img] by (auto simp add: heading_not_other)

lemma heading_image_loop_init:
  "images_heading k \<notin> set (markdown (image_loop e pn i imgs init_state))"
proof (induction imgs arbitrary: i)
  case Nil
  show ?case by (simp add: init_state_def)
next
  case (Cons img imgs)
  show ?case
    by (simp only: image_loop_Cons_init st_append_sel set_append Un_iff
          heading_process_image_init Cons.IH simp_thms not_False_eq_True)
qed

lemma heading_process_page:
  "images_heading k \<in> set (markdown (process_page e t n p init_state))
     \<longleftrightarrow> k = n \<and> (\<exists>pg body imgs. p = Returns pg \<and> get_text pg = Returns body
                         \<and> get_images pg = Returns imgs \<and> imgs \<noteq> [])"
  by (auto simp add: process_page_init heading_not_other heading_image_loop_init images_heading_inj
      split: outcome.splits)

lemma heading_page_loop:
  "images_heading k \<in> set (markdown (page_loop e t n ps init_state))
     \<longleftrightarrow> n \<le> k \<and> k < n + length ps
          \<and> (\<exists>pg body imgs. ps ! (k - n) = Returns pg \<and> get_text pg = Returns body
                \<and> get_images pg = Returns imgs \<and> imgs \<noteq> [])"
proof (induction ps arbitrary: n)
  case Nil
  show ?case by (simp add: init_state_def)
next
  case (Cons p ps)
  have split: "images_heading k \<in> set (markdown (page_loop e t n (p # ps) init_state))
      \<longleftrightarrow> images_heading k \<in> set (markdown (process_page e t n p init_state))
        \<or> images_heading k \<in> set (markdown (page_loop e t (Suc n) ps init_state))"
    by (simp only: page_loop_Cons_init st_append_sel set_append Un_iff)
  show ?case
  proof (cases "k = n")
    case True
    then show ?thesis
      unfolding split heading_process_page Cons.IH by simp
  next
    case False
    have "(p # ps) ! (k - n) = ps ! (k - Suc n)" if "n \<le> k"
      using that False by (simp add: nth_Cons')
    with False show ?thesis
      unfolding split heading_process_page Cons.IH by auto
  qed
qed

lemma marked_msgs:
  "take (Suc 0) (image_failed_msg i pn r) = [CHR 0xE2]"
  "take (Suc 0) (ocr_error_msg i pn r) = [CHR 0xE2]"
  "take (Suc 0) (skipped_image_msg i pn) = [CHR 0xE2]"
  "take (Suc 0) (no_text_msg i pn) = [CHR 0xE2]"
  "take (Suc 0) (page_failed_msg pn r) = [CHR 0xE2]"
  "take (Suc 0) (text_failed_msg pn r) = [CHR 0xE2]"
  "take (Suc 0) (page_too_large_msg pn) = [CHR 0xE2]"
  by (simp_all add: msg_defs cross_mark_def warning_sign_def)

lemma marked_process_image:
  "list_all (\<lambda>s. take (Suc 0) s = [CHR 0xE2])
     (errors (process_image e pn i img init_state) @ warnings (process_image e pn i img init_state))"
  using process_image_init_cases [of e pn i img] by (auto simp add: marked_msgs)

lemma marked_image_loop:
  "list_all (\<lambda>s. take (Suc 0) s = [CHR 0xE2])
     (errors (image_loop e pn i imgs init_state) @ warnings (image_loop e pn i imgs init_state))"
proof (induction imgs arbitrary: i)
  case Nil
  show ?case by (simp add: init_state_def)
next
  case (Cons img imgs)
  from marked_process_image [of e pn i img] Cons.IH [of "Suc i"] show ?case
    by (simp add: image_loop_Cons_init del: image_loop.simps)
qed

lemma marked_process_page:
  "list_all (\<lambda>s. take (Suc 0) s = [CHR 0xE2])
     (errors (process_page e t n p init_state) @ warnings (process_page e t n p init_state))"
  using marked_image_loop [of e n 0]
  by (simp add: process_page_init marked_msgs split: outcome.splits)

lemma marked_page_loop:
  "list_all (\<lambda>s. take (Suc 0) s = [CHR 0xE2])
     (errors (page_loop e t n ps init_state) @ warnings (page_loop e t n ps init_state))"
proof (induction ps arbitrary: n)
  case Nil
  show ?case by (simp add: init_state_def)
next
  case (Cons p ps)
  from marked_process_page [of e t n p] Cons.IH [of "Suc n"] show ?case
    by (simp add: page_loop_Cons_init del: page_loop.simps)
qed

lemma heading_add_summary:
  assumes "list_all (\<lambda>s. take (Suc 0) s = [CHR 0xE2]) (errors st @ warnings st)"
  shows "images_heading k \<in> set (markdown (add_summary st)) \<longleftrightarrow> images_heading k \<in> set (markdown st)"
proof -
  from assms have "images_heading k \<notin> set (errors st)" "images_heading k \<notin> set (warnings st)"
    by (auto simp add: list_all_iff dest: heading_not_marked)
  then show ?thesis
    by (simp add: add_summary_def heading_not_other)
qed


lemma no_readtext_process_image:
  "reader e = None \<Longrightarrow> ReadText path \<notin> set (trace (process_image e pn i img init_state))"
  by (simp add: process_image_def run_ocr_def st_ops init_state_def
      split: outcome.splits temp_outcome.splits)

lemma no_readtext_image_loop:
  "reader e = None \<Longrightarrow> ReadText path \<notin> set (trace (image_loop e pn i imgs init_state))"
proof (induction imgs arbitrary: i)
  case Nil
  show ?case by (simp add: init_state_def)
next
  case (Cons img imgs)
  from no_readtext_process_image [OF Cons.prems, of path pn i img] Cons.IH [OF Cons.prems, of "Suc i"]
  show ?case
    by (simp add: image_loop_Cons_init del: image_loop.simps)
qed

lemma no_readtext_process_page:
  "reader e = None \<Longrightarrow> ReadText path \<notin> set (trace (process_page e t n p init_state))"
  using no_readtext_image_loop [of e path n 0]
  by (simp add: process_page_init split: outcome.splits)

lemma no_readtext_page_loop:
  "reader e = None \<Longrightarrow> ReadText path \<notin> set (trace (page_loop e t n ps init_state))"
proof (induction ps arbitrary: n)
  case Nil
  show ?case by (simp add: init_state_def)
next
  case (Cons p ps)
  from no_readtext_process_page [OF Cons.prems, of path t n p] Cons.IH [OF Cons.prems, of "Suc n"]
  show ?case
    by (simp add: page_loop_Cons_init del: page_loop.simps)
qed

lemma page_section_process_page:
  "get_text pg = Returns body \<Longrightarrow>
   page_section n body \<in> set (markdown (process_page e t n (Returns pg) init_state))"
  by (simp add: process_page_init split: outcome.splits)

lemma page_section_page_loop:
  "i < length ps \<Longrightarrow> ps ! i = Returns pg \<Longrightarrow> get_text pg = Returns body \<Longrightarrow>
   page_section (n + i) body \<in> set (markdown (page_loop e t n ps init_state))"
proof (induction ps arbitrary: n i)
  case Nil
  then show ?case by simp
next
  case (Cons p ps)
  show ?case
  proof (cases i)
    case 0
    with Cons.prems page_section_process_page [of pg body n e t] show ?thesis
      by (simp add: page_loop_Cons_init del: page_loop.simps)
  next
    case (Suc j)
    with Cons.prems have "page_section (Suc n + j) body \<in> set (markdown (page_loop e t (Suc n) ps init_state))"
      by (intro Cons.IH) simp_all
    with Suc show ?thesis
      by (simp add: page_loop_Cons_init del: page_loop.simps)
  qed
qed

lemma markdown_add_summary_mono: "x \<in> set (markdown st) \<Longrightarrow> x \<in> set (markdown (add_summary st))"
  by (simp add: add_summary_def)


subsection \<open>The batch loop\<close>

lemma join_nonempty: "x \<in> set xs \<Longrightarrow> x \<noteq> [] \<Longrightarrow> join sep xs \<noteq> []"
  by (induction sep xs rule: join.induct) auto

lemma page_section_nonempty: "page_section n body \<noteq> []"
  by (simp add: page_section_def)

lemma first_page_leaves_something:
  "(\<exists>s \<in> set (markdown (process_page e t n p init_state)). s \<noteq> [])
   \<or> errors (process_page e t n p init_state) \<noteq> []"
  by (simp add: process_page_init page_section_nonempty split: outcome.splits)

lemma summary_nonempty:
  assumes "(\<exists>s \<in> set (markdown st). s \<noteq> []) \<or> errors st \<noteq> []"
  shows "\<exists>s \<in> set (markdown (add_summary st)). s \<noteq> []"
proof (cases "errors st = []")
  case True
  with assms obtain s where "s \<in> set (markdown st)" "s \<noteq> []" by blast
  then show ?thesis
    using markdown_add_summary_mono by blast
next
  case False
  then have "''\<newline>## Processing Summary'' \<in> set (markdown (add_summary st))"
    by (simp add: add_summary_def)
  then show ?thesis by (intro bexI [of _ "''\<newline>## Processing Summary''"]) simp_all
qed

lemma nonempty_document_renders:
  assumes "doc \<noteq> []"
  shows "join sep (markdown (add_summary (page_loop e t n doc init_state))) \<noteq> []"
proof -
  from assms obtain p ps where doc: "doc = p # ps" by (cases doc) auto
  let ?first = "process_page e t n p init_state"
  let ?st = "page_loop e t n doc init_state"
  have st: "?st = st_append ?first (page_loop e t (Suc n) ps init_state)"
    unfolding doc by (rule page_loop_Cons_init)
  from first_page_leaves_something [of e t n p]
  have "(\<exists>s \<in> set (markdown ?st). s \<noteq> []) \<or> errors ?st \<noteq> []"
    unfolding st by auto
  then obtain s where "s \<in> set (markdown (add_summary ?st))" "s \<noteq> []"
    using summary_nonempty by blast
  then show ?thesis by (rule join_nonempty)
qed

lemma process_pdf_empty_iff:
  "process_pdf e b = Returns [] \<longleftrightarrow> length b \<le> 50 * 1024 * 1024 \<and> fitz_open e b = Returns []"
proof (cases "length b \<le> 50 * 1024 * 1024")
  case False
  then have "validate_pdf_size b \<noteq> Returns ()"
    by (simp add: validate_pdf_size_ok)
  then obtain msg where "validate_pdf_size b = Raises msg"
    by (cases "validate_pdf_size b") auto
  with False show ?thesis
    by (simp add: process_pdf_def process_pdf_state_def)
next
  case True
  show ?thesis
  proof (cases "fitz_open e b")
    case (Raises msg)
    with True show ?thesis
      using validate_pdf_size_ok [of b] by (simp add: process_pdf_def process_pdf_state_def)
  next
    case (Returns doc)
    show ?thesis
    proof (cases "doc = []")
      case True
      with \<open>length b \<le> 50 * 1024 * 1024\<close> Returns show ?thesis
        by (simp add: process_pdf_def process_pdf_state_opened add_summary_def init_state_def)
    next
      case False
      from nonempty_document_renders [OF False]
      have "join ''\<newline>\<newline>'' (markdown (add_summary (page_loop e (length doc) 0 doc init_state))) \<noteq> []" .
      with False \<open>length b \<le> 50 * 1024 * 1024\<close> Returns show ?thesis
        by (simp add: process_pdf_def process_pdf_state_opened)
    qed
  qed
qed

lemma upload_loop_zipf:
  "zipf (upload_loop e us b)
     = zipf b @ concat (map (\<lambda>u. case process_pdf e (getvalue u) of
                                     Raises msg \<Rightarrow> []
                                   | Returns md_content \<Rightarrow>
                                       if md_content \<noteq> []
                                       then [(fst (splitext e (name u)) @ ''.md'', md_content)]
                                       else []) us)"
  by (induction us arbitrary: b) (simp_all add: process_upload_def split: outcome.splits)

lemma upload_loop_st_error:
  "st_error (upload_loop e us b)
     = st_error b @ concat (map (\<lambda>u. case process_pdf e (getvalue u) of
                                     Raises msg \<Rightarrow> [''Error processing '' @ name u @ '': '' @ msg]
                                   | Returns md_content \<Rightarrow> []) us)"
  by (induction us arbitrary: b) (simp_all add: process_upload_def split: outcome.splits)

lemma upload_loop_count:
  "length (zipf (upload_loop e us b)) + length (st_error (upload_loop e us b))
     = length (zipf b) + length (st_error b)
       + length (filter (\<lambda>u. process_pdf e (getvalue u) \<noteq> Returns []) us)"
  by (induction us arbitrary: b) (simp_all add: process_upload_def split: outcome.splits)


section \<open>Properties of the document processor\<close>

text \<open>
  C6 (zero-page document). A document within the size limit that opens and reports no
  pages is processed successfully: the final state has no section, no error and no
  warning, so no Processing Summary is appended, and the rendered text is empty.
\<close>

theorem zero_page_document:
  assumes "length pdf_bytes \<le> 50 * 1024 * 1024"
    and "fitz_open e pdf_bytes = Returns []"
  shows "process_pdf_state e pdf_bytes
           = Returns \<lparr>markdown = [], errors = [], warnings = [], trace = []\<rparr>
         \<and> process_pdf e pdf_bytes = Returns []"
  using assms
  by (simp add: process_pdf_state_opened process_pdf_def add_summary_def init_state_def)

theorem zero_page_document_witness:
  "length ''%PDF-1.4'' \<le> 50 * 1024 * 1024
   \<and> fitz_open (example_env None (Returns [])) ''%PDF-1.4'' = Returns []
   \<and> process_pdf_state (example_env None (Returns [])) ''%PDF-1.4''
       = Returns \<lparr>markdown = [], errors = [], warnings = [], trace = []\<rparr>
   \<and> process_pdf (example_env None (Returns [])) ''%PDF-1.4'' = Returns []"
  using zero_page_document [of "''%PDF-1.4''" "example_env None (Returns [])"]
  by (simp add: example_env_def)

text \<open>
  C10 (a failing deletion is swallowed). Whether \<^verbatim>\<open>os.unlink\<close> raises for the
  images of a page changes neither the sections nor the errors nor the warnings the image
  loop produces: whatever the deletions do (\<open>f\<close> decides it image by image), no
  diagnostic is recorded for them, and every image and the images after it give the
  result they give otherwise. The loop returns a state in every case: \<open>image_loop\<close>
  has no exceptional result.
\<close>

theorem unlink_failure_swallowed:
  "diag (image_loop e page_num img_idx (map (\<lambda>img. img\<lparr>unlink_raises := f img\<rparr>) imgs) st)
     = diag (image_loop e page_num img_idx imgs st)"
  by (rule image_loop_unlink_diag) simp

text \<open>
  C2 (what a rejected image leaves behind), as the code has it. An image whose bytes
  are within the size limit and that PIL cannot open, or opens with a format other than
  PNG, JPEG and TIFF, adds exactly one warning, no error, no section and no event (no
  temporary file, no recognizer call), and the loop goes on with the next image. An
  image above the size limit makes \<open>validate_image\<close> raise; the handler of the loop body
  records that as exactly one error (and no warning), again without any event, and the
  loop goes on with the next image.
\<close>

theorem gate_rejection_recorded:
  assumes "extract_image img = Returns image_bytes"
  shows "(length image_bytes \<le> 10 * 1024 * 1024
            \<and> image_open e image_bytes \<notin> {Some ''PNG'', Some ''JPEG'', Some ''TIFF''}
          \<longrightarrow> image_loop e page_num img_idx (img # imgs) st
                = image_loop e page_num (Suc img_idx) imgs
                    (st_append st \<lparr>markdown = [], errors = [],
                       warnings = [skipped_image_msg img_idx page_num], trace = []\<rparr>))
       \<and> (10 * 1024 * 1024 < length image_bytes
          \<longrightarrow> image_loop e page_num img_idx (img # imgs) st
                = image_loop e page_num (Suc img_idx) imgs
                    (st_append st \<lparr>markdown = [],
                       errors = [image_failed_msg img_idx page_num ''Image too large (max 10MB allowed)''],
                       warnings = [], trace = []\<rparr>))"
  using assms
  by (simp add: process_image_append [of _ _ _ _ st])
     (simp add: process_image_def validate_image_cases st_ops init_state_def)

theorem gate_rejection_recorded_witness:
  "extract_image gif_image = Returns ''GIF89a''
   \<and> length ''GIF89a'' \<le> 10 * 1024 * 1024
   \<and> image_open (example_env world_reader (Returns [])) ''GIF89a''
        \<notin> {Some ''PNG'', Some ''JPEG'', Some ''TIFF''}
   \<and> image_loop (example_env world_reader (Returns [])) 0 0 [gif_image] init_state
       = \<lparr>markdown = [], errors = [], warnings = [skipped_image_msg 0 0], trace = []\<rparr>
   \<and> extract_image huge_image = Returns (replicate (10 * 1024 * 1024 + 1) CHR ''P'')
   \<and> 10 * 1024 * 1024 < length (replicate (10 * 1024 * 1024 + 1) CHR ''P'')
   \<and> image_loop (example_env world_reader (Returns [])) 0 0 [huge_image] init_state
       = \<lparr>markdown = [], errors = [image_failed_msg 0 0 ''Image too large (max 10MB allowed)''],
          warnings = [], trace = []\<rparr>"
  using gate_rejection_recorded [of gif_image "''GIF89a''" "example_env world_reader (Returns [])"
      0 0 "[]" init_state]
    gate_rejection_recorded [of huge_image "replicate (10 * 1024 * 1024 + 1) CHR ''P''"
      "example_env world_reader (Returns [])" 0 0 "[]" init_state]
  by (simp add: gif_image_def huge_image_def example_env_def sniff_def)

text \<open>
  C2 as stated fails for an image above the size limit: the gate rejects it by raising,
  and the image is recorded as an error, with no warning.
\<close>

theorem oversize_image_is_error:
  "validate_image (example_env world_reader (Returns [])) (replicate (10 * 1024 * 1024 + 1) CHR ''P'')
     = Raises ''Image too large (max 10MB allowed)''
   \<and> process_image (example_env world_reader (Returns [])) 0 0 huge_image init_state
     = \<lparr>markdown = [],
        errors = [cross_mark @ '' Failed to process image 1 on page 1: Image too large (max 10MB allowed)''],
        warnings = [], trace = []\<rparr>"
  by (simp add: process_image_def validate_image_cases huge_image_def st_ops init_state_def
       image_failed_msg_def str_nat_1)

text \<open>
  C3 (text extraction fails on a page), as the code has it. When \<^verbatim>\<open>page.get_text()\<close>
  raises for a loaded page, the iteration adds exactly one error naming the page, the
  page-size warning if the page is too large, and nothing else: no section for the page
  (the \<^verbatim>\<open>continue\<close> comes before any \<^verbatim>\<open>markdown.append\<close>), no image event. The
  loop goes on with the next page.
\<close>

theorem text_extraction_failure:
  assumes "get_text pg = Raises msg"
  shows "page_loop e total_pages page_num (Returns pg # ps) st =
         page_loop e total_pages (Suc page_num) ps
           (st_append st
              \<lparr>markdown = [],
               errors = [text_failed_msg page_num msg],
               warnings = (if rect_too_large pg then [page_too_large_msg page_num] else []),
               trace = [Progress (of_nat (page_num + 1) / of_nat total_pages), LoadPage page_num]\<rparr>)"
  using assms
  by (simp add: process_page_append [of _ _ _ _ st])
     (simp add: process_page_def Let_def st_ops init_state_def)

theorem text_extraction_failure_witness:
  "get_text broken_page = Raises ''boom''
   \<and> page_loop (example_env world_reader (Returns [])) 2 1 [Returns broken_page] init_state
       = \<lparr>markdown = [], errors = [text_failed_msg 1 ''boom''], warnings = [],
          trace = [Progress 1, LoadPage 1]\<rparr>"
  using text_extraction_failure [of broken_page "''boom''" "example_env world_reader (Returns [])"
      2 1 "[]" init_state]
  by (simp add: broken_page_def)

text \<open>
  C3 as stated fails on the two-page scenario of the specification (page 1 with the text
  Hello and one image read as WORLD, page 2 whose text extraction raises): the sections
  of the result hold no section for page 2, not even one with empty text.
\<close>

theorem failed_page_has_no_section:
  "process_pdf_state (example_env world_reader (Returns [Returns hello_page, Returns broken_page]))
       ''%PDF-1.4''
     = Returns \<lparr>markdown =
          [''## Page 1\<newline>\<newline>Hello'', ''### Images on Page 1'', ''**Image 1 OCR:**\<newline>WORLD\<newline>'',
           ''\<newline>## Processing Summary'', ''\<newline>### Errors'',
           cross_mark @ '' Failed to extract text from page 2: boom''],
         errors = [cross_mark @ '' Failed to extract text from page 2: boom''],
         warnings = [],
         trace = [Progress (1 / 2), LoadPage 0, TempCreated ''/tmp/tmpa1.png'', ReadText ''/tmp/tmpa1.png'',
                  Unlink ''/tmp/tmpa1.png'' True, Progress 1, LoadPage 1]\<rparr>
   \<and> ''## Page 2\<newline>\<newline>''
       \<notin> set [''## Page 1\<newline>\<newline>Hello'', ''### Images on Page 1'', ''**Image 1 OCR:**\<newline>WORLD\<newline>'',
           ''\<newline>## Processing Summary'', ''\<newline>### Errors'',
           cross_mark @ '' Failed to extract text from page 2: boom'']"
  by (simp add: process_pdf_state_opened run_defs msg_defs str_nat_1 str_nat_2
        hello_page_def broken_page_def png_image_def cross_mark_def)

text \<open>
  C8 (release of the temporary file), as the code has it. For an image that passes the
  gate and whose temporary file is written, the events of the image are: the file is
  created, the recognizer is called if there is a reader, and \<^verbatim>\<open>os.unlink\<close> is called
  exactly once, last, whatever the recognizer did (no reader, an exception, no text, some
  text). When that call succeeds the file does not exist afterwards.
\<close>

theorem transient_file_release:
  assumes "extract_image img = Returns image_bytes"
    and "validate_image e image_bytes = Returns True"
    and "named_temp_file img = Written temp_path"
  shows "trace (process_image e page_num img_idx img st)
           = trace st @ [TempCreated temp_path]
               @ (case reader e of None \<Rightarrow> [] | Some readtext \<Rightarrow> [ReadText temp_path])
               @ [Unlink temp_path (\<not> unlink_raises img)]
         \<and> (\<not> unlink_raises img
              \<longrightarrow> temp_path \<notin> files_after fs (trace (process_image e page_num img_idx img st)))"
proof -
  have t: "trace (process_image e page_num img_idx img st)
           = trace st @ [TempCreated temp_path]
               @ (case reader e of None \<Rightarrow> [] | Some readtext \<Rightarrow> [ReadText temp_path])
               @ [Unlink temp_path (\<not> unlink_raises img)]"
    using assms
    by (simp add: process_image_def run_ocr_def st_ops split: option.splits outcome.splits)
  show ?thesis
    by (simp add: t files_after_def)
qed

theorem transient_file_release_witness:
  "extract_image png_image = Returns ''PNG-data''
   \<and> validate_image (example_env world_reader (Returns [])) ''PNG-data'' = Returns True
   \<and> named_temp_file png_image = Written ''/tmp/tmpa1.png''
   \<and> \<not> unlink_raises png_image
   \<and> trace (process_image (example_env world_reader (Returns [])) 0 0 png_image init_state)
       = [TempCreated ''/tmp/tmpa1.png'', ReadText ''/tmp/tmpa1.png'', Unlink ''/tmp/tmpa1.png'' True]
   \<and> ''/tmp/tmpa1.png''
       \<notin> files_after {} (trace (process_image (example_env world_reader (Returns [])) 0 0 png_image
                                   init_state))"
  using transient_file_release [of png_image "''PNG-data''" "example_env world_reader (Returns [])"
      "''/tmp/tmpa1.png''" 0 0 init_state "{}"]
  by (simp add: run_defs png_image_def files_after_def)

text \<open>
  C8 as stated fails when the deletion itself fails: the image is recognized, the
  failure of \<^verbatim>\<open>os.unlink\<close> is swallowed, and the temporary file is still there after
  the image has been processed.
\<close>

theorem undeleted_file_outlives_ocr:
  "process_image (example_env world_reader (Returns [])) 0 0 stuck_image init_state
     = \<lparr>markdown = [''**Image 1 OCR:**\<newline>WORLD\<newline>''], errors = [], warnings = [],
        trace = [TempCreated ''/tmp/tmpd4.png'', ReadText ''/tmp/tmpd4.png'',
                 Unlink ''/tmp/tmpd4.png'' False]\<rparr>
   \<and> ''/tmp/tmpd4.png''
       \<in> files_after {} [TempCreated ''/tmp/tmpd4.png'', ReadText ''/tmp/tmpd4.png'',
                          Unlink ''/tmp/tmpd4.png'' False]"
  by (simp add: run_defs msg_defs str_nat_1 stuck_image_def files_after_def)

text \<open>
  C9 (progress notifications), as the code has it. For a document that opens, the
  fractions passed to the progress bar are \<open>1/N, 2/N, \<dots>, N/N\<close>, one for every page
  whatever happens to the page; they increase strictly and the last one is 1. Each
  notification is made at the start of the iteration, before the page is loaded and
  processed, not after it: the events of an iteration begin with the notification,
  followed by the loading of the page.
\<close>

theorem progress_notifications:
  assumes "length pdf_bytes \<le> 50 * 1024 * 1024"
    and "fitz_open e pdf_bytes = Returns doc"
  shows "(\<exists>st. process_pdf_state e pdf_bytes = Returns st
            \<and> fractions (trace st) = map (\<lambda>k. of_nat (k + 1) / of_nat (length doc)) [0..<length doc]
            \<and> sorted_wrt (<) (fractions (trace st))
            \<and> (doc \<noteq> [] \<longrightarrow> last (fractions (trace st)) = 1))
       \<and> (\<exists>evs. trace (process_page e total_pages page_num loaded st')
             = trace st' @ Progress (of_nat (page_num + 1) / of_nat total_pages) # LoadPage page_num # evs)"
proof -
  let ?st = "add_summary (page_loop e (length doc) 0 doc init_state)"
  have run: "process_pdf_state e pdf_bytes = Returns ?st"
    using assms by (rule process_pdf_state_opened)
  have fr: "fractions (trace ?st) = map (\<lambda>k. of_nat (k + 1) / of_nat (length doc)) [0..<length doc]"
    using fractions_page_loop [of e "length doc" 0 doc] by (simp add: trace_add_summary)
  have "sorted_wrt (<) (fractions (trace ?st))"
    unfolding fr by (rule fractions_increasing)
  moreover have "doc \<noteq> [] \<longrightarrow> last (fractions (trace ?st)) = 1"
    unfolding fr using fractions_last [of "length doc"] by simp
  ultimately show ?thesis
    using run fr process_page_trace_starts [of e total_pages page_num loaded st'] by blast
qed

theorem progress_notifications_witness:
  "length ''%PDF-1.4'' \<le> 50 * 1024 * 1024
   \<and> fitz_open (example_env world_reader (Returns [Returns hello_page, Returns broken_page])) ''%PDF-1.4''
       = Returns [Returns hello_page, Returns broken_page]
   \<and> (\<exists>st. process_pdf_state
               (example_env world_reader (Returns [Returns hello_page, Returns broken_page])) ''%PDF-1.4''
             = Returns st
           \<and> fractions (trace st) = [1 / 2, 1])"
  using progress_notifications [where pdf_bytes = "''%PDF-1.4''"
      and e = "example_env world_reader (Returns [Returns hello_page, Returns broken_page])"
      and doc = "[Returns hello_page, Returns broken_page]"
      and total_pages = 2 and page_num = 0 and loaded = "Returns hello_page" and st' = init_state]
  by (auto simp add: example_env_def upt_rec)

text \<open>
  C9 as stated fails on a one-page document with one image: the only notification, with
  the fraction 1, is the first event, and the loading of the page and the OCR of its image
  follow it; no notification follows the page.
\<close>

theorem progress_precedes_page:
  "process_pdf_state (example_env world_reader (Returns [Returns hello_page])) ''%PDF-1.4''
     = Returns \<lparr>markdown =
          [''## Page 1\<newline>\<newline>Hello'', ''### Images on Page 1'', ''**Image 1 OCR:**\<newline>WORLD\<newline>''],
         errors = [], warnings = [],
         trace = [Progress 1, LoadPage 0, TempCreated ''/tmp/tmpa1.png'', ReadText ''/tmp/tmpa1.png'',
                  Unlink ''/tmp/tmpa1.png'' True]\<rparr>
   \<and> fractions [LoadPage 0, TempCreated ''/tmp/tmpa1.png'', ReadText ''/tmp/tmpa1.png'',
                  Unlink ''/tmp/tmpa1.png'' True] = []"
  by (simp add: process_pdf_state_opened run_defs msg_defs str_nat_1 hello_page_def png_image_def)

text \<open>
  C7 (a failing image and its siblings), as the code has it. The image loop over the
  images of a page gives: what the state held before (the section of the page's text
  included), then what the images before a given image give on their own, then what that
  image gives, then what the images after it give on their own, under their own numbers.
  When an exception of the image reaches a handler of the loop body (extraction, gate,
  temporary file or recognition), the image gives exactly one error naming it and the
  page, with no section and no warning. When none does, the image gives no error at all,
  also when the deletion of its temporary file fails: that transient I/O error is
  swallowed and recorded nowhere.
\<close>

theorem sibling_image_isolation:
  "image_loop e page_num img_idx (before @ img # after) st
     = st_append
         (st_append
            (st_append st (image_loop e page_num img_idx before init_state))
            (process_image e page_num (img_idx + length before) img init_state))
         (image_loop e page_num (Suc (img_idx + length before)) after init_state)
   \<and> (raises_to_handler e img
        \<longrightarrow> (\<exists>msg evs.
               (\<exists>reason. msg = ocr_error_msg (img_idx + length before) page_num reason
                        \<or> msg = image_failed_msg (img_idx + length before) page_num reason)
             \<and> process_image e page_num (img_idx + length before) img init_state
                 = \<lparr>markdown = [], errors = [msg], warnings = [], trace = evs\<rparr>))
   \<and> (\<not> raises_to_handler e img
        \<longrightarrow> errors (process_image e page_num (img_idx + length before) img init_state) = [])"
proof (intro conjI impI)
  show "image_loop e page_num img_idx (before @ img # after) st
     = st_append
         (st_append
            (st_append st (image_loop e page_num img_idx before init_state))
            (process_image e page_num (img_idx + length before) img init_state))
         (image_loop e page_num (Suc (img_idx + length before)) after init_state)"
    by (rule image_loop_around)
next
  assume "raises_to_handler e img"
  then show "\<exists>msg evs.
               (\<exists>reason. msg = ocr_error_msg (img_idx + length before) page_num reason
                        \<or> msg = image_failed_msg (img_idx + length before) page_num reason)
             \<and> process_image e page_num (img_idx + length before) img init_state
                 = \<lparr>markdown = [], errors = [msg], warnings = [], trace = evs\<rparr>"
    by (rule failing_image_delta)
next
  assume "\<not> raises_to_handler e img"
  then show "errors (process_image e page_num (img_idx + length before) img init_state) = []"
    by (rule quiet_image_no_error)
qed

theorem sibling_image_isolation_witness:
  "raises_to_handler (example_env world_reader (Returns [])) huge_image
   \<and> image_loop (example_env world_reader (Returns [])) 0 0 [png_image, huge_image, png_image] init_state
      = \<lparr>markdown = [''**Image 1 OCR:**\<newline>WORLD\<newline>'', ''**Image 3 OCR:**\<newline>WORLD\<newline>''],
         errors = [cross_mark @ '' Failed to process image 2 on page 1: Image too large (max 10MB allowed)''],
         warnings = [],
         trace = [TempCreated ''/tmp/tmpa1.png'', ReadText ''/tmp/tmpa1.png'', Unlink ''/tmp/tmpa1.png'' True,
                  TempCreated ''/tmp/tmpa1.png'', ReadText ''/tmp/tmpa1.png'', Unlink ''/tmp/tmpa1.png'' True]\<rparr>
   \<and> \<not> raises_to_handler (example_env world_reader (Returns [])) stuck_image
   \<and> unlink_raises stuck_image
   \<and> errors (process_image (example_env world_reader (Returns [])) 0 1 stuck_image init_state) = []"
  using sibling_image_isolation [where e = "example_env world_reader (Returns [])" and img = huge_image
      and before = "[png_image]" and after = "[png_image]" and img_idx = 0 and page_num = 0
      and st = init_state]
    sibling_image_isolation [where e = "example_env world_reader (Returns [])" and img = stuck_image
      and before = "[png_image]" and after = "[png_image]" and img_idx = 0 and page_num = 0
      and st = init_state]
  by (simp add: raises_to_handler_def run_defs msg_defs str_nat_1 str_nat_2 str_nat_3 huge_image_def
        png_image_def stuck_image_def)

text \<open>
  C7 as stated fails for a transient I/O error in the deletion of the temporary file: on a
  page of three images, \<^verbatim>\<open>os.unlink\<close> fails for the second one, and no error is
  recorded for it (nor for any other image).
\<close>

theorem unlink_failure_not_recorded:
  "unlink_raises stuck_image
   \<and> image_loop (example_env world_reader (Returns [])) 0 0 [png_image, stuck_image, png_image] init_state
      = \<lparr>markdown = [''**Image 1 OCR:**\<newline>WORLD\<newline>'', ''**Image 2 OCR:**\<newline>WORLD\<newline>'',
                     ''**Image 3 OCR:**\<newline>WORLD\<newline>''],
         errors = [],
         warnings = [],
         trace = [TempCreated ''/tmp/tmpa1.png'', ReadText ''/tmp/tmpa1.png'', Unlink ''/tmp/tmpa1.png'' True,
                  TempCreated ''/tmp/tmpd4.png'', ReadText ''/tmp/tmpd4.png'', Unlink ''/tmp/tmpd4.png'' False,
                  TempCreated ''/tmp/tmpa1.png'', ReadText ''/tmp/tmpa1.png'', Unlink ''/tmp/tmpa1.png'' True]\<rparr>"
  by (simp add: run_defs msg_defs str_nat_1 str_nat_2 str_nat_3 png_image_def stuck_image_def)

text \<open>
  C4 (the heading of the image subsection), as the code has it. Among the sections of the
  result of a document that opens, the heading \<^verbatim>\<open>### Images on Page <n>\<close> is present
  exactly when the page exists, was loaded, its text was extracted and
  \<^verbatim>\<open>get_images\<close> returned at least one image, whatever became of the images.
\<close>

theorem images_heading_present:
  assumes "length pdf_bytes \<le> 50 * 1024 * 1024"
    and "fitz_open e pdf_bytes = Returns doc"
  shows "\<exists>st. process_pdf_state e pdf_bytes = Returns st
           \<and> (images_heading n \<in> set (markdown st)
                \<longleftrightarrow> n < length doc
                     \<and> (\<exists>pg body imgs. doc ! n = Returns pg \<and> get_text pg = Returns body
                           \<and> get_images pg = Returns imgs \<and> imgs \<noteq> []))"
  using assms heading_page_loop [of n e "length doc" 0 doc]
    heading_add_summary [OF marked_page_loop [of e "length doc" 0 doc], of n]
  by (simp add: process_pdf_state_opened)

theorem images_heading_present_witness:
  "length ''%PDF-1.4'' \<le> 50 * 1024 * 1024
   \<and> fitz_open (example_env world_reader (Returns [Returns gif_page])) ''%PDF-1.4''
       = Returns [Returns gif_page]
   \<and> (\<exists>st. process_pdf_state (example_env world_reader (Returns [Returns gif_page])) ''%PDF-1.4''
             = Returns st
           \<and> images_heading 0 \<in> set (markdown st))"
  using images_heading_present [where pdf_bytes = "''%PDF-1.4''"
      and e = "example_env world_reader (Returns [Returns gif_page])"
      and doc = "[Returns gif_page]" and n = 0]
  by (simp add: example_env_def gif_page_def)

text \<open>
  C4 as stated fails on a page whose only image is rejected by the gate: no image yields
  recognized text (the recognizer is not even called), and the heading is there.
\<close>

theorem heading_without_recognized_text:
  "process_pdf_state (example_env world_reader (Returns [Returns gif_page])) ''%PDF-1.4''
     = Returns \<lparr>markdown =
          [''## Page 1\<newline>\<newline>Hello'', ''### Images on Page 1'', ''\<newline>## Processing Summary'',
           ''\<newline>### Warnings'',
           warning_sign @ '' Skipped image 1 on page 1: Invalid format or corrupted''],
         errors = [],
         warnings = [warning_sign @ '' Skipped image 1 on page 1: Invalid format or corrupted''],
         trace = [Progress 1, LoadPage 0]\<rparr>"
  by (simp add: process_pdf_state_opened run_defs msg_defs str_nat_1 gif_page_def gif_image_def)

text \<open>
  C5 (no reader), as the code has it. With \<^verbatim>\<open>reader\<close> being \<open>None\<close>, an image that
  passes the gate and whose temporary file is written adds exactly one error with the reason
  \<^verbatim>\<open>OCR engine not initialized\<close>; the temporary file is written before the reader is
  looked at, and its deletion is attempted afterwards. In the whole document the
  recognizer is never called, and the text of every page whose extraction returns is a
  section of the result.
\<close>

theorem degraded_ocr_mode:
  assumes "reader e = None"
  shows "(extract_image img = Returns image_bytes \<and> validate_image e image_bytes = Returns True
            \<and> named_temp_file img = Written temp_path
          \<longrightarrow> image_loop e page_num img_idx (img # imgs) st =
               image_loop e page_num (Suc img_idx) imgs
                 (st_append st
                   \<lparr>markdown = [],
                    errors = [ocr_error_msg img_idx page_num ''OCR engine not initialized''],
                    warnings = [],
                    trace = [TempCreated temp_path, Unlink temp_path (\<not> unlink_raises img)]\<rparr>))
       \<and> (length pdf_bytes \<le> 50 * 1024 * 1024 \<and> fitz_open e pdf_bytes = Returns doc
          \<longrightarrow> (\<exists>st'. process_pdf_state e pdf_bytes = Returns st'
                  \<and> ReadText path \<notin> set (trace st')
                  \<and> (n < length doc \<and> doc ! n = Returns pg \<and> get_text pg = Returns body
                       \<longrightarrow> page_section n body \<in> set (markdown st'))))"
proof (intro conjI impI)
  assume "extract_image img = Returns image_bytes \<and> validate_image e image_bytes = Returns True
            \<and> named_temp_file img = Written temp_path"
  with assms show "image_loop e page_num img_idx (img # imgs) st =
               image_loop e page_num (Suc img_idx) imgs
                 (st_append st
                   \<lparr>markdown = [],
                    errors = [ocr_error_msg img_idx page_num ''OCR engine not initialized''],
                    warnings = [],
                    trace = [TempCreated temp_path, Unlink temp_path (\<not> unlink_raises img)]\<rparr>)"
    by (simp add: process_image_append [of _ _ _ _ st])
       (simp add: process_image_def run_ocr_def st_ops init_state_def)
next
  assume "length pdf_bytes \<le> 50 * 1024 * 1024 \<and> fitz_open e pdf_bytes = Returns doc"
  then have run: "process_pdf_state e pdf_bytes
                    = Returns (add_summary (page_loop e (length doc) 0 doc init_state))"
    by (simp add: process_pdf_state_opened)
  have "ReadText path \<notin> set (trace (add_summary (page_loop e (length doc) 0 doc init_state)))"
    using no_readtext_page_loop [OF assms] by (simp add: trace_add_summary)
  moreover have "page_section n body \<in> set (markdown (add_summary (page_loop e (length doc) 0 doc init_state)))"
    if "n < length doc \<and> doc ! n = Returns pg \<and> get_text pg = Returns body"
    using that page_section_page_loop [of n doc pg body 0 e "length doc"]
    by (simp add: markdown_add_summary_mono)
  ultimately show "\<exists>st'. process_pdf_state e pdf_bytes = Returns st'
                  \<and> ReadText path \<notin> set (trace st')
                  \<and> (n < length doc \<and> doc ! n = Returns pg \<and> get_text pg = Returns body
                       \<longrightarrow> page_section n body \<in> set (markdown st'))"
    using run by blast
qed

theorem degraded_ocr_mode_witness:
  "reader (example_env None (Returns [Returns hello_page])) = None
   \<and> extract_image png_image = Returns ''PNG-data''
   \<and> validate_image (example_env None (Returns [Returns hello_page])) ''PNG-data'' = Returns True
   \<and> named_temp_file png_image = Written ''/tmp/tmpa1.png''
   \<and> image_loop (example_env None (Returns [Returns hello_page])) 0 0 [png_image] init_state
       = \<lparr>markdown = [], errors = [ocr_error_msg 0 0 ''OCR engine not initialized''], warnings = [],
          trace = [TempCreated ''/tmp/tmpa1.png'', Unlink ''/tmp/tmpa1.png'' True]\<rparr>
   \<and> length ''%PDF-1.4'' \<le> 50 * 1024 * 1024
   \<and> fitz_open (example_env None (Returns [Returns hello_page])) ''%PDF-1.4'' = Returns [Returns hello_page]
   \<and> get_text hello_page = Returns ''Hello''
   \<and> (\<exists>st'. process_pdf_state (example_env None (Returns [Returns hello_page])) ''%PDF-1.4'' = Returns st'
           \<and> ReadText ''/tmp/tmpa1.png'' \<notin> set (trace st')
           \<and> page_section 0 ''Hello'' \<in> set (markdown st'))"
  using degraded_ocr_mode [where e = "example_env None (Returns [Returns hello_page])"
      and img = png_image and image_bytes = "''PNG-data''" and temp_path = "''/tmp/tmpa1.png''"
      and page_num = 0 and img_idx = 0 and imgs = "[]" and st = init_state
      and pdf_bytes = "''%PDF-1.4''" and doc = "[Returns hello_page]" and path = "''/tmp/tmpa1.png''"
      and n = 0 and pg = hello_page and body = "''Hello''"]
  by (simp add: example_env_def png_image_def hello_page_def validate_image_cases sniff_def)

text \<open>
  C5 as stated fails on one image that passes the gate: with no reader, the temporary
  file is written all the same (and deleted again) before the error is recorded.
\<close>

theorem degraded_mode_writes_file:
  "reader (example_env None (Returns [])) = None
   \<and> process_image (example_env None (Returns [])) 0 0 png_image init_state
       = \<lparr>markdown = [],
          errors = [cross_mark @ '' OCR Error for image 1 on page 1: OCR engine not initialized''],
          warnings = [],
          trace = [TempCreated ''/tmp/tmpa1.png'', Unlink ''/tmp/tmpa1.png'' True]\<rparr>"
  by (simp add: run_defs msg_defs str_nat_1 png_image_def)

text \<open>
  C1 (outcomes of a batch), as the code has it. Processing a batch writes one archive
  entry for every document whose processing returns a non-empty text, named after the
  document, and shows one error for every document whose processing raises, naming the
  document; a document whose processing returns the empty text gets neither, because of
  the test \<^verbatim>\<open>if md_content:\<close>. So the number of outcomes is the number of documents
  that do not render to the empty text. A document renders to the empty text exactly
  when it is within the size limit and opens with no pages.
\<close>

theorem batch_outcomes:
  "zipf (process_files e True uploaded_files)
     = concat (map (\<lambda>u. case process_pdf e (getvalue u) of
                           Raises msg \<Rightarrow> []
                         | Returns md_content \<Rightarrow>
                             if md_content \<noteq> []
                             then [(fst (splitext e (name u)) @ ''.md'', md_content)]
                             else []) uploaded_files)
   \<and> st_error (process_files e True uploaded_files)
     = concat (map (\<lambda>u. case process_pdf e (getvalue u) of
                           Raises msg \<Rightarrow> [''Error processing '' @ name u @ '': '' @ msg]
                         | Returns md_content \<Rightarrow> []) uploaded_files)
   \<and> length (zipf (process_files e True uploaded_files))
       + length (st_error (process_files e True uploaded_files))
     = length (filter (\<lambda>u. process_pdf e (getvalue u) \<noteq> Returns []) uploaded_files)
   \<and> (process_pdf e pdf_bytes = Returns []
        \<longleftrightarrow> length pdf_bytes \<le> 50 * 1024 * 1024 \<and> fitz_open e pdf_bytes = Returns [])"
proof -
  have "process_files e True uploaded_files = upload_loop e uploaded_files \<lparr>zipf = [], st_error = []\<rparr>"
    by (cases uploaded_files) (simp_all add: process_files_def)
  then show ?thesis
    using upload_loop_zipf [of e uploaded_files "\<lparr>zipf = [], st_error = []\<rparr>"]
      upload_loop_st_error [of e uploaded_files "\<lparr>zipf = [], st_error = []\<rparr>"]
      upload_loop_count [of e uploaded_files "\<lparr>zipf = [], st_error = []\<rparr>"]
      process_pdf_empty_iff [of e pdf_bytes]
    by simp
qed

text \<open>
  C1 as stated fails on a batch of one document that opens with no pages: the batch
  leaves no archive entry and no error, so one input document has no outcome.
\<close>

theorem empty_document_dropped:
  "process_pdf (example_env world_reader (Returns [])) ''%PDF-1.4'' = Returns []
   \<and> process_files (example_env world_reader (Returns [])) True
        [\<lparr>name = ''empty.pdf'', getvalue = ''%PDF-1.4''\<rparr>]
     = \<lparr>zipf = [], st_error = []\<rparr>"
proof -
  have "process_pdf (example_env world_reader (Returns [])) ''%PDF-1.4'' = Returns []"
    by (simp add: process_pdf_empty_iff example_env_def)
  then show ?thesis
    by (simp add: process_files_def process_upload_def)
qed

end
